theory Spec2Isabelle
  imports Main
begin

section \<open>Strings and regular expressions of the host language\<close>

text \<open>
  Strings are lists of characters with codes below 256, read as the code units of the
  source's strings (Latin-1). \<open>toLowerCase\<close> is \<^verbatim>\<open>String.prototype.toLowerCase\<close> on that
  range: the letters A..Z and the accented capitals 0xC0..0xDE (the multiplication sign 0xD7
  apart) move up by 0x20, every other character stays.
\<close>

definition lower_char :: "char \<Rightarrow> char" where
  "lower_char c =
     (let n = (of_char c :: nat) in
      if (65 \<le> n \<and> n \<le> 90) \<or> (192 \<le> n \<and> n \<le> 222 \<and> n \<noteq> 215)
      then char_of (n + 32) else c)"

definition toLowerCase :: "string \<Rightarrow> string" where
  "toLowerCase s = map lower_char s"

text \<open>
  A \<^verbatim>\<open>RegExp\<close> object built with the flag \<^verbatim>\<open>'i'\<close> alone has no \<^verbatim>\<open>lastIndex\<close> state, so
  it is a function of the subject string: \<open>Some m\<close> where \<^verbatim>\<open>subject.match(re)\<close> is an array whose
  first element is \<open>m\<close> (the leftmost match), \<open>None\<close> where it is \<^verbatim>\<open>null\<close>;
  \<^verbatim>\<open>re.test(subject)\<close> is true exactly in the first case. The \<^verbatim>\<open>pattern\<close> prop of the
  component is the source text of such an object; a text that is no regular expression makes the
  constructor throw and is no extension pattern.
\<close>

type_synonym RegExp = "string \<Rightarrow> string option"

definition test :: "RegExp \<Rightarrow> string \<Rightarrow> bool" where
  "test re s = (re s \<noteq> None)"

text \<open>
  The pattern texts that are needed here are sequences of single-character pieces, each
  optionally repeated, and the end anchor: \<^verbatim>\<open>.\<close> is \<open>AnyChar\<close>, a class \<^verbatim>\<open>[0-9a-z]\<close> is
  \<open>CharClass [(CHR ''0'', CHR ''9''), (CHR ''a'', CHR ''z'')]\<close>, \<^verbatim>\<open>x+\<close> is \<open>Plus x\<close>,
  \<^verbatim>\<open>x*\<close> is \<open>Star x\<close>, \<^verbatim>\<open>$\<close> is \<open>EndAnchor\<close>.
\<close>

datatype atom = AnyChar | Lit char | CharClass "(char \<times> char) list"

datatype piece = One atom | Plus atom | Star atom | EndAnchor

type_synonym pattern_text = "piece list"

text \<open>
  Under the flag \<^verbatim>\<open>'i'\<close> two characters are the same when their canonical (upper-case) forms
  are: on this range a character is the same as its lower-case and its upper-case form, so it
  is in a class range when one of the three is. \<^verbatim>\<open>.\<close> matches everything but the line
  terminators.
\<close>

definition upper_char :: "char \<Rightarrow> char" where
  "upper_char c =
     (let n = (of_char c :: nat) in
      if (97 \<le> n \<and> n \<le> 122) \<or> (224 \<le> n \<and> n \<le> 254 \<and> n \<noteq> 247)
      then char_of (n - 32) else c)"

definition in_range :: "char \<Rightarrow> char \<times> char \<Rightarrow> bool" where
  "in_range c r = ((of_char (fst r) :: nat) \<le> of_char c \<and> (of_char c :: nat) \<le> of_char (snd r))"

definition in_range_i :: "char \<Rightarrow> char \<times> char \<Rightarrow> bool" where
  "in_range_i c r = (in_range c r \<or> in_range (lower_char c) r \<or> in_range (upper_char c) r)"

fun atom_matches_i :: "atom \<Rightarrow> char \<Rightarrow> bool" where
  "atom_matches_i AnyChar c = (c \<noteq> CHR 0x0A \<and> c \<noteq> CHR 0x0D)"
| "atom_matches_i (Lit a) c = (lower_char a = lower_char c)"
| "atom_matches_i (CharClass rs) c = list_ex (in_range_i c) rs"

text \<open>
  \<open>match_here ts s\<close> is the backtracking matcher at one start position: the matched prefix of
  \<open>s\<close>, repetitions greedy (the longest run is tried first, then shorter ones).
\<close>

fun match_here :: "pattern_text \<Rightarrow> string \<Rightarrow> string option" where
  "match_here [] s = Some []"
| "match_here (EndAnchor # ts) s = (if s = [] then match_here ts s else None)"
| "match_here (One a # ts) [] = None"
| "match_here (One a # ts) (c # cs) =
     (if atom_matches_i a c then map_option (Cons c) (match_here ts cs) else None)"
| "match_here (Plus a # ts) [] = None"
| "match_here (Plus a # ts) (c # cs) =
     (if atom_matches_i a c then map_option (Cons c) (match_here (Star a # ts) cs) else None)"
| "match_here (Star a # ts) [] = match_here ts []"
| "match_here (Star a # ts) (c # cs) =
     (if atom_matches_i a c
      then (case match_here (Star a # ts) cs of
              Some m \<Rightarrow> Some (c # m)
            | None \<Rightarrow> match_here ts (c # cs))
      else match_here ts (c # cs))"

text \<open>The leftmost match: start positions are tried from left to right, the end included.\<close>

fun RegExp_i :: "pattern_text \<Rightarrow> RegExp" where
  "RegExp_i ts [] = match_here ts []"
| "RegExp_i ts (c # cs) =
     (case match_here ts (c # cs) of Some m \<Rightarrow> Some m | None \<Rightarrow> RegExp_i ts cs)"

section \<open>The component's props and files\<close>

text \<open>
  A file as \<open>validateFiles\<close> reads it: \<open>name\<close>, \<open>type\<close> (absent on a plain object, then the
  destructuring default \<^verbatim>\<open>''\<close> applies) and the annotation \<open>invalidFileType\<close>, unset on a
  fresh file.
\<close>

record File =
  name :: string
  type :: "string option"
  invalidFileType :: "bool option"

record props =
  accept :: "string list"
  disabled :: bool
  pattern :: RegExp
  onClick :: bool

text \<open>\<^verbatim>\<open>defaultProps.pattern\<close>, the text \<^verbatim>\<open>'.[0-9a-z]+$'\<close>.\<close>

definition defaultProps_pattern :: pattern_text where
  "defaultProps_pattern =
     [One AnyChar, Plus (CharClass [(CHR ''0'', CHR ''9''), (CHR ''a'', CHR ''z'')]), EndAnchor]"

section \<open>validateFiles\<close>

text \<open>
  The event \<open>validateFiles\<close> receives: a drop event (type \<^verbatim>\<open>'drop'\<close>) carries its files in
  \<^verbatim>\<open>dataTransfer.files\<close>, the change event of the input carries them in \<^verbatim>\<open>target.files\<close>.
\<close>

datatype event = Drop "File list" | Change "File list"

fun transferredFiles :: "event \<Rightarrow> File list" where
  "transferredFiles (Drop dataTransfer_files) = dataTransfer_files"
| "transferredFiles (Change target_files) = target_files"

definition mimeType :: "File \<Rightarrow> string" where
  "mimeType cur = (case type cur of None \<Rightarrow> [] | Some t \<Rightarrow> t)"

text \<open>
  The callback of \<^verbatim>\<open>reduce\<close>. The source writes the annotation into the file object and
  appends that object; the model appends the updated record. Whether a file is kept, and how it
  is annotated, depends on its name and type alone, which are never written, so a file object
  that occurs twice in the list gets the same annotation at both places in the source as in the
  model. After a successful \<open>test\<close>, \<^verbatim>\<open>name.match\<close> is not \<^verbatim>\<open>null\<close>: the last case is never
  taken.
\<close>

definition reducer :: "RegExp \<Rightarrow> string set \<Rightarrow> File list \<Rightarrow> File \<Rightarrow> File list" where
  "reducer fileExtensionRegExp acceptedTypes acc cur =
     (let hasFileExtension = test fileExtensionRegExp (name cur) in
      if \<not> hasFileExtension then acc
      else (case fileExtensionRegExp (name cur) of
              Some fileExtension \<Rightarrow>
                if mimeType cur \<in> acceptedTypes \<or> toLowerCase fileExtension \<in> acceptedTypes
                then acc @ [cur]
                else acc @ [cur\<lparr>invalidFileType := Some True\<rparr>]
            | None \<Rightarrow> acc))"

definition validateFiles :: "props \<Rightarrow> event \<Rightarrow> File list" where
  "validateFiles p ev =
     (if length (accept p) = 0 then transferredFiles ev
      else foldl (reducer (pattern p) (set (accept p))) [] (transferredFiles ev))"

section \<open>The component\<close>

text \<open>
  The state of one instance: the \<open>isActive\<close> flag of \<^verbatim>\<open>useState\<close>, the stored value of the
  file input (\<open>None\<close> when empty), and the log of what the handlers did to the outside: calls
  on the event object, calls of the props' callbacks, and the activations of the file input
  (\<open>InputClick\<close>: a click that \<^verbatim>\<open>inputRef.current.click()\<close> fired at the input, whose
  activation behaviour is to open the file picker).
\<close>

datatype effect =
    StopPropagation
  | PreventDefault
  | DropEffect string
  | OnAddFiles "File list"
  | OnClick
  | InputClick

record component =
  isActive :: bool
  input_value :: "string option"
  effects :: "effect list"

definition initial :: component where
  "initial = \<lparr>isActive = False, input_value = None, effects = []\<rparr>"

definition emit :: "effect \<Rightarrow> component \<Rightarrow> component" where
  "emit e s = s\<lparr>effects := effects s @ [e]\<rparr>"

definition handleChange :: "props \<Rightarrow> event \<Rightarrow> component \<Rightarrow> component" where
  "handleChange p ev s = (let addedFiles = validateFiles p ev in emit (OnAddFiles addedFiles) s)"

text \<open>
  The input is rendered with \<^verbatim>\<open>disabled={disabled}\<close> and with an \<^verbatim>\<open>onClick\<close> handler that
  resets its value.
\<close>

definition input_disabled :: "props \<Rightarrow> bool" where
  "input_disabled p = disabled p"

definition input_onClick :: "component \<Rightarrow> component" where
  "input_onClick s = s\<lparr>input_value := None\<rparr>"

text \<open>
  \<^verbatim>\<open>inputRef.current?.click()\<close>, the \<^verbatim>\<open>click()\<close> method of the host on the rendered input: on
  a disabled form control it does nothing; otherwise it fires a click event at the input at
  once, so the input's \<^verbatim>\<open>onClick\<close> handler runs and the input is activated.
\<close>

definition inputRef_click :: "props \<Rightarrow> component \<Rightarrow> component" where
  "inputRef_click p s = (if input_disabled p then s else emit InputClick (input_onClick s))"

definition handleClick :: "props \<Rightarrow> component \<Rightarrow> component" where
  "handleClick p s = (if \<not> disabled p then inputRef_click p s else s)"

definition onDragOver :: "props \<Rightarrow> component \<Rightarrow> component" where
  "onDragOver p s =
     (let s1 = emit PreventDefault (emit StopPropagation s) in
      if disabled p then s1
      else emit (DropEffect ''copy'') (s1\<lparr>isActive := True\<rparr>))"

definition onDragLeave :: "props \<Rightarrow> component \<Rightarrow> component" where
  "onDragLeave p s =
     (let s1 = emit PreventDefault (emit StopPropagation s) in
      if disabled p then s1
      else emit (DropEffect ''move'') (s1\<lparr>isActive := False\<rparr>))"

definition onDrop :: "props \<Rightarrow> File list \<Rightarrow> component \<Rightarrow> component" where
  "onDrop p fs s =
     (let s1 = emit PreventDefault (emit StopPropagation s) in
      if disabled p then s1
      else handleChange p (Drop fs) (s1\<lparr>isActive := False\<rparr>))"

text \<open>
  Modelled from the spec: \<^verbatim>\<open>keys\<close> and \<^verbatim>\<open>matches\<close> of \<^verbatim>\<open>internal/keyboard\<close> are not among
  the sources; the spec names the keys (Enter, Space) and \<open>matches\<close> is membership of the
  event's key in the list given.
\<close>

datatype key = Enter | Space | OtherKey string

definition matches :: "key \<Rightarrow> key list \<Rightarrow> bool" where
  "matches k ks = (k \<in> set ks)"

definition onKeyDown :: "props \<Rightarrow> key \<Rightarrow> component \<Rightarrow> component" where
  "onKeyDown p k s =
     (if matches k [Enter, Space] then inputRef_click p (emit PreventDefault s) else s)"

text \<open>
  Modelled from the spec: \<^verbatim>\<open>composeEventHandlers\<close> of \<^verbatim>\<open>tools/events\<close> is not among the
  sources; by the spec the \<^verbatim>\<open>onClick\<close> prop is invoked before the click-to-open behaviour and
  both run. The prop is optional: \<open>onClick p\<close> says that one was given.
\<close>

definition button_onClick :: "props \<Rightarrow> component \<Rightarrow> component" where
  "button_onClick p s = handleClick p (if onClick p then emit OnClick s else s)"

text \<open>The input's \<^verbatim>\<open>onChange\<close> handler is \<open>handleChange\<close>.\<close>

definition input_onChange :: "props \<Rightarrow> File list \<Rightarrow> component \<Rightarrow> component" where
  "input_onChange p fs s = handleChange p (Change fs) s"

text \<open>
  The events the host delivers, one at a time. The host writes the input's stored value when
  the user has chosen files in the picker, before it delivers the change event: \<open>InputChange v fs\<close>
  is that event, with the value \<open>v\<close> the host has stored.
\<close>

datatype ui_event =
    DragOver
  | DragLeave
  | Dropped "File list"
  | ButtonClick
  | KeyDown key
  | InputClicked
  | InputChange string "File list"

fun dispatch :: "props \<Rightarrow> component \<Rightarrow> ui_event \<Rightarrow> component" where
  "dispatch p s DragOver = onDragOver p s"
| "dispatch p s DragLeave = onDragLeave p s"
| "dispatch p s (Dropped fs) = onDrop p fs s"
| "dispatch p s ButtonClick = button_onClick p s"
| "dispatch p s (KeyDown k) = onKeyDown p k s"
| "dispatch p s InputClicked = input_onClick s"
| "dispatch p s (InputChange v fs) = input_onChange p fs (s\<lparr>input_value := Some v\<rparr>)"

definition run :: "props \<Rightarrow> component \<Rightarrow> ui_event list \<Rightarrow> component" where
  "run p s es = foldl (dispatch p) s es"

definition onAddFiles_calls :: "component \<Rightarrow> File list list" where
  "onAddFiles_calls s = concat (map (\<lambda>e. case e of OnAddFiles fs \<Rightarrow> [fs] | _ \<Rightarrow> []) (effects s))"

definition input_clicks :: "component \<Rightarrow> nat" where
  "input_clicks s = length (filter (\<lambda>e. e = InputClick) (effects s))"

text \<open>The drag events, and the two events that hand files over.\<close>

fun is_drag_event :: "ui_event \<Rightarrow> bool" where
  "is_drag_event DragOver = True"
| "is_drag_event DragLeave = True"
| "is_drag_event (Dropped fs) = True"
| "is_drag_event e = False"

fun hands_over_files :: "ui_event \<Rightarrow> bool" where
  "hands_over_files (Dropped fs) = True"
| "hands_over_files (InputChange v fs) = True"
| "hands_over_files e = False"

text \<open>
  The host's rule for the file picker, as the spec describes it: the change notification is
  suppressed when the files picked give the value the input already stores.
\<close>

definition host_notifies_change :: "component \<Rightarrow> string \<Rightarrow> bool" where
  "host_notifies_change s v = (input_value s \<noteq> Some v)"

section \<open>The classification in the words of the spec\<close>

text \<open>
  A file has a match when the pattern finds an extension token in its name; it is accepted
  when its MIME type, as it is, or its extension token, in lower case, is in the accept-list;
  a file that is not accepted is annotated; a file is kept when the accept-list is empty or
  it has a match.
\<close>

definition has_match :: "props \<Rightarrow> File \<Rightarrow> bool" where
  "has_match p f = test (pattern p) (name f)"

definition accepted :: "props \<Rightarrow> File \<Rightarrow> bool" where
  "accepted p f =
     (mimeType f \<in> set (accept p) \<or>
      (case pattern p (name f) of
         None \<Rightarrow> False
       | Some ext \<Rightarrow> toLowerCase ext \<in> set (accept p)))"

definition annotate :: "props \<Rightarrow> File \<Rightarrow> File" where
  "annotate p f = (if accepted p f then f else f\<lparr>invalidFileType := Some True\<rparr>)"

definition kept :: "props \<Rightarrow> File \<Rightarrow> bool" where
  "kept p f = (accept p = [] \<or> has_match p f)"

section \<open>Example inputs\<close>

text \<open>The example of the spec: an accept-list of one extension and one MIME type.\<close>

definition example_props :: props where
  "example_props =
     \<lparr>accept = [''.png'', ''image/jpeg''], disabled = False,
      pattern = RegExp_i defaultProps_pattern, onClick = True\<rparr>"

definition disabled_props :: props where
  "disabled_props = example_props\<lparr>disabled := True\<rparr>"

definition defaultProps :: props where
  "defaultProps =
     \<lparr>accept = [], disabled = False, pattern = RegExp_i defaultProps_pattern, onClick = False\<rparr>"

definition a_png :: File where
  "a_png = \<lparr>name = ''a.png'', type = Some [], invalidFileType = None\<rparr>"

definition b_txt :: File where
  "b_txt = \<lparr>name = ''b.txt'', type = Some ''text/plain'', invalidFileType = None\<rparr>"

definition c_jpg :: File where
  "c_jpg = \<lparr>name = ''c.jpg'', type = Some ''image/jpeg'', invalidFileType = None\<rparr>"

text \<open>A name the default pattern finds no token in: its last character is no letter or digit.\<close>

definition backup :: File where
  "backup = \<lparr>name = ''notes.txt~'', type = Some ''text/plain'', invalidFileType = None\<rparr>"

text \<open>A file that was annotated by an earlier classification and is handed over again.\<close>

definition marked_jpg :: File where
  "marked_jpg = \<lparr>name = ''d.jpg'', type = Some ''image/jpeg'', invalidFileType = Some True\<rparr>"

text \<open>The value a host stores in the input when \<^verbatim>\<open>a.png\<close> has been picked.\<close>

definition fakepath_a_png :: string where
  "fakepath_a_png = ''C:'' @ CHR 0x5C # ''fakepath'' @ CHR 0x5C # ''a.png''"

section \<open>The reduction as a map over the files with a match\<close>

lemma reducer_Nil:
  "reducer (pattern p) (set (accept p)) [] f = (if has_match p f then [annotate p f] else [])"
  by (auto simp: reducer_def has_match_def annotate_def accepted_def test_def
      split: option.splits)

lemma reducer_append: "reducer re A acc f = acc @ reducer re A [] f"
  by (simp add: reducer_def Let_def split: option.split)

lemma foldl_reducer_acc:
  "foldl (reducer re A) acc fs = acc @ foldl (reducer re A) [] fs"
proof (induction fs arbitrary: acc)
  case Nil
  show ?case by simp
next
  case (Cons f fs)
  have "foldl (reducer re A) acc (f # fs) = foldl (reducer re A) (reducer re A acc f) fs"
    by simp
  also have "\<dots> = reducer re A acc f @ foldl (reducer re A) [] fs"
    by (rule Cons.IH)
  also have "\<dots> = acc @ reducer re A [] f @ foldl (reducer re A) [] fs"
    by (subst reducer_append) simp
  also have "\<dots> = acc @ foldl (reducer re A) (reducer re A [] f) fs"
    by (subst (2) Cons.IH) simp
  finally show ?case by simp
qed

lemma foldl_reducer_annotate:
  "foldl (reducer (pattern p) (set (accept p))) [] fs =
   map (annotate p) (filter (has_match p) fs)"
proof (induction fs)
  case Nil
  show ?case by simp
next
  case (Cons f fs)
  have "foldl (reducer (pattern p) (set (accept p))) [] (f # fs) =
        reducer (pattern p) (set (accept p)) [] f @
        foldl (reducer (pattern p) (set (accept p))) [] fs"
    using foldl_reducer_acc
      [of "pattern p" "set (accept p)" "reducer (pattern p) (set (accept p)) [] f" fs]
    by simp
  then show ?case
    by (simp add: Cons.IH reducer_Nil)
qed

lemma validateFiles_nonempty:
  "accept p \<noteq> [] \<Longrightarrow>
   validateFiles p ev = map (annotate p) (filter (has_match p) (transferredFiles ev))"
  by (simp add: validateFiles_def foldl_reducer_annotate)

lemma validateFiles_empty: "accept p = [] \<Longrightarrow> validateFiles p ev = transferredFiles ev"
  by (simp add: validateFiles_def)

lemma validateFiles_kept:
  "list_all2 (\<lambda>r f. r = annotate p f \<or> (accept p = [] \<and> r = f))
     (validateFiles p ev) (filter (kept p) (transferredFiles ev))"
proof (cases "accept p = []")
  case True
  then show ?thesis
    by (simp add: validateFiles_empty kept_def list_all2_same)
next
  case False
  then have "kept p = has_match p"
    by (auto simp: kept_def)
  with False show ?thesis
    by (simp add: validateFiles_nonempty list_all2_map1 list_all2_same)
qed


lemma annotate_name: "name (annotate p f) = name f"
  by (simp add: annotate_def)

section \<open>Classification\<close>

text \<open>
  C1, as the code has it: for every file list, non-empty accept-list and pattern, the result of
  \<open>validateFiles\<close> is the list of the files whose name has a match, each once and in the order
  of the input. A file whose MIME type (compared as it is) or whose extension token (in lower
  case) is in the accept-list is returned as it came in: no annotation is added, and one that
  was already there stays. Every other file with a match is returned with
  \<open>invalidFileType = true\<close>.
\<close>

theorem classify_matching_files:
  assumes "accept p \<noteq> []"
  shows "validateFiles p ev = map (annotate p) (filter (has_match p) (transferredFiles ev)) \<and>
         (\<forall>f. accepted p f \<longrightarrow> annotate p f = f) \<and>
         (\<forall>f. \<not> accepted p f \<longrightarrow> annotate p f = f\<lparr>invalidFileType := Some True\<rparr>)"
  using assms by (simp add: validateFiles_nonempty annotate_def)

text \<open>
  C1, witness: the example of the spec, with a file without a match added to the input.
\<close>

theorem classify_matching_files_witness:
  "accept example_props \<noteq> [] \<and>
   validateFiles example_props (Drop [a_png, b_txt, backup, c_jpg]) =
     [a_png, b_txt\<lparr>invalidFileType := Some True\<rparr>, c_jpg]"
proof -
  have h: "accept example_props \<noteq> []"
    by code_simp
  have e: "map (annotate example_props)
             (filter (has_match example_props) (transferredFiles (Drop [a_png, b_txt, backup, c_jpg]))) =
           [a_png, b_txt\<lparr>invalidFileType := Some True\<rparr>, c_jpg]"
    by code_simp
  from classify_matching_files [OF h, of "Drop [a_png, b_txt, backup, c_jpg]"] e h
  show ?thesis by simp
qed

text \<open>
  C1, counterexample to "an accepted file carries no invalid annotation": a file whose MIME
  type is in the accept-list and which comes in with \<open>invalidFileType = true\<close> is returned
  with the annotation.
\<close>

theorem accepted_file_keeps_old_annotation:
  "accept example_props \<noteq> [] \<and>
   has_match example_props marked_jpg \<and>
   mimeType marked_jpg \<in> set (accept example_props) \<and>
   validateFiles example_props (Drop [marked_jpg]) = [marked_jpg] \<and>
   map invalidFileType (validateFiles example_props (Drop [marked_jpg])) = [Some True]"
  by code_simp

text \<open>
  C2: with an empty accept-list \<open>validateFiles\<close> returns the files of the event as they are:
  same length, same order, the annotations as they were, and the pattern has no part in it.
\<close>

theorem empty_accept_returns_input:
  assumes "accept p = []"
  shows "validateFiles p ev = transferredFiles ev \<and>
         length (validateFiles p ev) = length (transferredFiles ev) \<and>
         map invalidFileType (validateFiles p ev) = map invalidFileType (transferredFiles ev) \<and>
         validateFiles (p\<lparr>pattern := re\<rparr>) ev = transferredFiles ev"
  using assms by (simp add: validateFiles_def)

text \<open>C2, witness: the default props, whose accept-list is empty.\<close>

theorem empty_accept_returns_input_witness:
  "accept defaultProps = [] \<and>
   validateFiles defaultProps (Change [backup, marked_jpg, a_png]) = [backup, marked_jpg, a_png]"
proof -
  have h: "accept defaultProps = []"
    by (simp add: defaultProps_def)
  from empty_accept_returns_input [OF h, of "Change [backup, marked_jpg, a_png]"] h
  show ?thesis by simp
qed

text \<open>
  C3, as the code has it: the result corresponds, place by place, to the input files that are
  kept (all of them when the accept-list is empty, those with a match otherwise), in the order
  of the input; name and type are as in the input, and each record is the input record or the
  input record marked invalid. No file is added or repeated; the files removed are those
  without a match under a non-empty accept-list.
\<close>

theorem classify_keeps_matching_files_in_order:
  "list_all2 (\<lambda>r f. name r = name f \<and> type r = type f \<and>
                     (r = f \<or> r = f\<lparr>invalidFileType := Some True\<rparr>))
     (validateFiles p ev) (filter (kept p) (transferredFiles ev))"
  by (rule list_all2_mono [OF validateFiles_kept]) (auto simp: annotate_def)

text \<open>C3, witness: of three files the two with a match are returned, in order.\<close>

theorem classify_keeps_matching_files_in_order_witness:
  "filter (kept example_props) (transferredFiles (Drop [a_png, backup, b_txt])) = [a_png, b_txt] \<and>
   list_all2 (\<lambda>r f. name r = name f \<and> type r = type f \<and>
                     (r = f \<or> r = f\<lparr>invalidFileType := Some True\<rparr>))
     (validateFiles example_props (Drop [a_png, backup, b_txt])) [a_png, b_txt]"
proof -
  have e: "filter (kept example_props) (transferredFiles (Drop [a_png, backup, b_txt])) = [a_png, b_txt]"
    by code_simp
  from classify_keeps_matching_files_in_order [of example_props "Drop [a_png, backup, b_txt]"] e
  show ?thesis by simp
qed

text \<open>
  C3, counterexample to "classification never removes a file": under the example props the
  file \<^verbatim>\<open>notes.txt~\<close> is in the input and not in the result.
\<close>

theorem unmatched_file_is_removed:
  "backup \<in> set (transferredFiles (Drop [a_png, backup])) \<and>
   validateFiles example_props (Drop [a_png, backup]) = [a_png]"
  by code_simp

text \<open>
  C4: with a non-empty accept-list, a file whose name has no match is left out of the result:
  the result is the one the list without that file gives, for drop and change events alike,
  and no record of the result has its name, annotated or not. \<open>validateFiles\<close> has no failing
  branch, so nothing is raised.
\<close>

theorem unmatched_file_is_dropped:
  assumes "accept p \<noteq> []" and "pattern p (name f) = None"
  shows "validateFiles p (Drop (xs @ f # ys)) = validateFiles p (Drop (xs @ ys)) \<and>
         validateFiles p (Change (xs @ f # ys)) = validateFiles p (Change (xs @ ys)) \<and>
         (\<forall>r \<in> set (validateFiles p ev). name r \<noteq> name f)"
proof -
  from assms(2) have n: "\<not> has_match p f"
    by (simp add: has_match_def test_def)
  have "\<And>r. r \<in> set (validateFiles p ev) \<Longrightarrow> has_match p r"
    using assms(1) by (auto simp: validateFiles_nonempty has_match_def annotate_name)
  with n have "\<forall>r \<in> set (validateFiles p ev). name r \<noteq> name f"
    unfolding has_match_def by metis
  with assms(1) n show ?thesis
    by (simp add: validateFiles_nonempty)
qed

text \<open>C4, witness: \<^verbatim>\<open>notes.txt~\<close> between two files with a match.\<close>

theorem unmatched_file_is_dropped_witness:
  "accept example_props \<noteq> [] \<and> pattern example_props (name backup) = None \<and>
   validateFiles example_props (Drop ([a_png] @ backup # [b_txt])) =
     validateFiles example_props (Drop ([a_png] @ [b_txt])) \<and>
   validateFiles example_props (Drop ([a_png] @ [b_txt])) =
     [a_png, b_txt\<lparr>invalidFileType := Some True\<rparr>]"
proof -
  have h1: "accept example_props \<noteq> []"
    by code_simp
  have h2: "pattern example_props (name backup) = None"
    by code_simp
  have e: "validateFiles example_props (Drop ([a_png] @ [b_txt])) =
           [a_png, b_txt\<lparr>invalidFileType := Some True\<rparr>]"
    by code_simp
  from unmatched_file_is_dropped [OF h1 h2, of "[a_png]" "[b_txt]"] h1 h2 e
  show ?thesis by simp
qed




text \<open>
  C10: the annotation is only ever set. Place by place, a record that came in with
  \<open>invalidFileType = true\<close> and is kept is returned as it is, annotation included, whether
  or not it is accepted; and the annotation of every returned record is the one it came in
  with or \<open>true\<close>.
\<close>

theorem annotation_is_never_cleared:
  "list_all2 (\<lambda>r f. (invalidFileType f = Some True \<longrightarrow> r = f \<and> invalidFileType r = Some True) \<and>
                     (invalidFileType r = invalidFileType f \<or> invalidFileType r = Some True))
     (validateFiles p ev) (filter (kept p) (transferredFiles ev))"
  by (rule list_all2_mono [OF validateFiles_kept]) (auto simp: annotate_def)

text \<open>
  C10, witness: a file that comes in annotated and whose MIME type is in the accept-list.
\<close>

theorem annotation_is_never_cleared_witness:
  "filter (kept example_props) (transferredFiles (Change [marked_jpg])) = [marked_jpg] \<and>
   accepted example_props marked_jpg \<and>
   invalidFileType marked_jpg = Some True \<and>
   validateFiles example_props (Change [marked_jpg]) = [marked_jpg]"
proof -
  have e: "filter (kept example_props) (transferredFiles (Change [marked_jpg])) = [marked_jpg]"
    by code_simp
  have a: "accepted example_props marked_jpg"
    by code_simp
  have t: "invalidFileType marked_jpg = Some True"
    by (simp add: marked_jpg_def)
  from annotation_is_never_cleared [of example_props "Change [marked_jpg]"] e a t
  show ?thesis by (simp add: list_all2_Cons2)
qed

section \<open>The drag state and the activation of the input\<close>

text \<open>
  The handler the component binds for a drag that comes over the target is \<^verbatim>\<open>onDragOver\<close>;
  it is the drag-enter transition of the spec.
\<close>

lemma onAddFiles_calls_emit:
  "onAddFiles_calls (emit e s) =
   onAddFiles_calls s @ (case e of OnAddFiles fs \<Rightarrow> [fs] | _ \<Rightarrow> [])"
  by (simp add: onAddFiles_calls_def emit_def)

lemma onAddFiles_calls_isActive [simp]:
  "onAddFiles_calls (s\<lparr>isActive := b\<rparr>) = onAddFiles_calls s"
  by (simp add: onAddFiles_calls_def)

lemma onAddFiles_calls_input_value [simp]:
  "onAddFiles_calls (s\<lparr>input_value := v\<rparr>) = onAddFiles_calls s"
  by (simp add: onAddFiles_calls_def)

lemma isActive_emit [simp]: "isActive (emit e s) = isActive s"
  by (simp add: emit_def)

lemma input_value_emit [simp]: "input_value (emit e s) = input_value s"
  by (simp add: emit_def)

lemma disabled_drag_event:
  assumes "disabled p" and "is_drag_event e"
  shows "isActive (dispatch p s e) = isActive s \<and>
         effects (dispatch p s e) = effects s @ [StopPropagation, PreventDefault] \<and>
         onAddFiles_calls (dispatch p s e) = onAddFiles_calls s"
  using assms
  by (cases e)
    (simp_all add: onDragOver_def onDragLeave_def onDrop_def onAddFiles_calls_emit, simp_all add: emit_def)

lemma disabled_drag_run:
  assumes "disabled p" and "list_all is_drag_event es"
  shows "isActive (run p s es) = isActive s \<and> onAddFiles_calls (run p s es) = onAddFiles_calls s"
  using assms(2)
proof (induction es arbitrary: s)
  case Nil
  show ?case by (simp add: run_def)
next
  case (Cons e es)
  then have "is_drag_event e" and "list_all is_drag_event es"
    by simp_all
  with Cons.IH [of "dispatch p s e"] disabled_drag_event [OF assms(1), of e s]
  show ?case by (simp add: run_def)
qed

text \<open>
  C6: with \<open>disabled\<close> set, a drag-over, drag-leave or drop event leaves \<open>isActive\<close> as it
  is, in any state; the handler stops propagation and prevents the default and does nothing
  else, so \<^verbatim>\<open>onAddFiles\<close> is not called. From the initial state, any sequence of such events
  leaves the drag state idle.
\<close>

theorem disabled_freezes_drag_state:
  assumes "disabled p" and "is_drag_event e" and "list_all is_drag_event es"
  shows "isActive (dispatch p s e) = isActive s \<and>
         effects (dispatch p s e) = effects s @ [StopPropagation, PreventDefault] \<and>
         onAddFiles_calls (dispatch p s e) = onAddFiles_calls s \<and>
         isActive (run p initial es) = False \<and>
         onAddFiles_calls (run p initial es) = []"
  using disabled_drag_event [OF assms(1,2), of s] disabled_drag_run [OF assms(1,3), of initial]
  by (simp add: initial_def onAddFiles_calls_def)

text \<open>C6, witness: a drop on a disabled component, alone and between two drag events.\<close>

theorem disabled_freezes_drag_state_witness:
  "disabled disabled_props \<and>
   is_drag_event (Dropped [a_png]) \<and>
   list_all is_drag_event [DragOver, Dropped [a_png], DragLeave] \<and>
   dispatch disabled_props initial (Dropped [a_png]) =
     \<lparr>isActive = False, input_value = None, effects = [StopPropagation, PreventDefault]\<rparr> \<and>
   isActive (run disabled_props initial [DragOver, Dropped [a_png], DragLeave]) = False \<and>
   onAddFiles_calls (run disabled_props initial [DragOver, Dropped [a_png], DragLeave]) = []"
proof -
  have h1: "disabled disabled_props"
    by (simp add: disabled_props_def)
  have h2: "is_drag_event (Dropped [a_png])"
    by simp
  have h3: "list_all is_drag_event [DragOver, Dropped [a_png], DragLeave]"
    by simp
  have e: "dispatch disabled_props initial (Dropped [a_png]) =
           \<lparr>isActive = False, input_value = None, effects = [StopPropagation, PreventDefault]\<rparr>"
    by code_simp
  from disabled_freezes_drag_state [OF h1 h2 h3, of initial] h1 h2 h3 e
  show ?thesis by simp
qed

text \<open>
  C7: when the component is not disabled, in any state, a drag-over makes the drag state
  active and a drag-leave after it makes it idle, and neither calls \<^verbatim>\<open>onAddFiles\<close>. A drop
  and a change of the input call it once each, with the result of \<open>validateFiles\<close>; no other
  event calls it.
\<close>

theorem drag_over_then_leave_is_idle:
  assumes "\<not> disabled p"
  shows "isActive (dispatch p s DragOver) = True \<and>
         isActive (dispatch p (dispatch p s DragOver) DragLeave) = False \<and>
         onAddFiles_calls (dispatch p s DragOver) = onAddFiles_calls s \<and>
         onAddFiles_calls (dispatch p (dispatch p s DragOver) DragLeave) = onAddFiles_calls s \<and>
         onAddFiles_calls (dispatch p s (Dropped fs)) =
           onAddFiles_calls s @ [validateFiles p (Drop fs)] \<and>
         onAddFiles_calls (dispatch p s (InputChange v fs)) =
           onAddFiles_calls s @ [validateFiles p (Change fs)] \<and>
         (\<not> hands_over_files e \<longrightarrow> onAddFiles_calls (dispatch p s e) = onAddFiles_calls s)"
proof -
  have other: "\<not> hands_over_files e \<longrightarrow> onAddFiles_calls (dispatch p s e) = onAddFiles_calls s"
    by (cases e)
      (simp_all add: onDragOver_def onDragLeave_def button_onClick_def handleClick_def
        onKeyDown_def inputRef_click_def input_onClick_def onAddFiles_calls_emit Let_def)
  from assms other show ?thesis
    by (simp add: onDragOver_def onDragLeave_def onDrop_def input_onChange_def handleChange_def
        onAddFiles_calls_emit Let_def)
qed

text \<open>C7, witness: from the initial state, with the effects of both handlers.\<close>

theorem drag_over_then_leave_is_idle_witness:
  "\<not> disabled example_props \<and>
   dispatch example_props (dispatch example_props initial DragOver) DragLeave =
     \<lparr>isActive = False, input_value = None,
      effects = [StopPropagation, PreventDefault, DropEffect ''copy'',
                 StopPropagation, PreventDefault, DropEffect ''move'']\<rparr> \<and>
   isActive (dispatch example_props initial DragOver) = True \<and>
   onAddFiles_calls (dispatch example_props initial (Dropped [a_png, b_txt])) =
     [[a_png, b_txt\<lparr>invalidFileType := Some True\<rparr>]]"
proof -
  have h: "\<not> disabled example_props"
    by (simp add: example_props_def)
  have e1: "dispatch example_props (dispatch example_props initial DragOver) DragLeave =
     \<lparr>isActive = False, input_value = None,
      effects = [StopPropagation, PreventDefault, DropEffect ''copy'',
                 StopPropagation, PreventDefault, DropEffect ''move'']\<rparr>"
    by code_simp
  have e2: "validateFiles example_props (Drop [a_png, b_txt]) =
            [a_png, b_txt\<lparr>invalidFileType := Some True\<rparr>]"
    by code_simp
  have e3: "onAddFiles_calls initial = []"
    by code_simp
  from drag_over_then_leave_is_idle [OF h, of initial "[a_png, b_txt]"] h e1 e2 e3
  show ?thesis by simp
qed

lemma input_clicks_emit:
  "input_clicks (emit e s) = (if e = InputClick then Suc (input_clicks s) else input_clicks s)"
  by (simp add: input_clicks_def emit_def)

lemma input_clicks_input_value [simp]:
  "input_clicks (s\<lparr>input_value := v\<rparr>) = input_clicks s"
  by (simp add: input_clicks_def)

lemma inputRef_click_disabled: "disabled p \<Longrightarrow> inputRef_click p s = s"
  by (simp add: inputRef_click_def input_disabled_def)

lemma inputRef_click_enabled:
  "\<not> disabled p \<Longrightarrow>
   input_clicks (inputRef_click p s) = Suc (input_clicks s) \<and>
   input_value (inputRef_click p s) = None"
  by (simp add: inputRef_click_def input_disabled_def input_clicks_emit input_onClick_def)

text \<open>
  C8: on a disabled component neither a click on the button nor a key, Enter and Space
  included, activates the file input: the click runs the \<^verbatim>\<open>onClick\<close> prop at most, the key
  handler prevents the default at most, and the input's value stays. On a component that is
  not disabled the click and each of Enter and Space activate the input exactly once; any
  other key does nothing.
\<close>

theorem activation_follows_disabled:
  "(disabled p \<longrightarrow>
      input_clicks (dispatch p s ButtonClick) = input_clicks s \<and>
      input_clicks (dispatch p s (KeyDown k)) = input_clicks s \<and>
      effects (dispatch p s ButtonClick) = effects s @ (if onClick p then [OnClick] else []) \<and>
      effects (dispatch p s (KeyDown k)) =
        effects s @ (if k = Enter \<or> k = Space then [PreventDefault] else []) \<and>
      input_value (dispatch p s ButtonClick) = input_value s \<and>
      input_value (dispatch p s (KeyDown k)) = input_value s) \<and>
   (\<not> disabled p \<longrightarrow>
      input_clicks (dispatch p s ButtonClick) = Suc (input_clicks s) \<and>
      input_clicks (dispatch p s (KeyDown Enter)) = Suc (input_clicks s) \<and>
      input_clicks (dispatch p s (KeyDown Space)) = Suc (input_clicks s) \<and>
      dispatch p s (KeyDown (OtherKey x)) = s)"
proof (intro conjI impI)
  assume d: "disabled p"
  show "input_clicks (dispatch p s ButtonClick) = input_clicks s"
    using d by (simp add: button_onClick_def handleClick_def input_clicks_emit)
  show "input_clicks (dispatch p s (KeyDown k)) = input_clicks s"
    using d by (simp add: onKeyDown_def inputRef_click_disabled input_clicks_emit)
  show "effects (dispatch p s ButtonClick) = effects s @ (if onClick p then [OnClick] else [])"
    using d by (simp add: button_onClick_def handleClick_def emit_def)
  show "effects (dispatch p s (KeyDown k)) =
        effects s @ (if k = Enter \<or> k = Space then [PreventDefault] else [])"
    using d by (auto simp: onKeyDown_def matches_def inputRef_click_disabled emit_def)
  show "input_value (dispatch p s ButtonClick) = input_value s"
    using d by (simp add: button_onClick_def handleClick_def)
  show "input_value (dispatch p s (KeyDown k)) = input_value s"
    using d by (simp add: onKeyDown_def inputRef_click_disabled)
next
  assume e: "\<not> disabled p"
  show "input_clicks (dispatch p s ButtonClick) = Suc (input_clicks s)"
    using e inputRef_click_enabled [OF e]
    by (simp add: button_onClick_def handleClick_def input_clicks_emit)
  show "input_clicks (dispatch p s (KeyDown Enter)) = Suc (input_clicks s)"
    using inputRef_click_enabled [OF e, of "emit PreventDefault s"]
    by (simp add: onKeyDown_def matches_def input_clicks_emit)
  show "input_clicks (dispatch p s (KeyDown Space)) = Suc (input_clicks s)"
    using inputRef_click_enabled [OF e, of "emit PreventDefault s"]
    by (simp add: onKeyDown_def matches_def input_clicks_emit)
  show "dispatch p s (KeyDown (OtherKey x)) = s"
    by (simp add: onKeyDown_def matches_def)
qed

text \<open>
  C8, witness: the same click and the same key on the example props, disabled and not.
\<close>

theorem activation_follows_disabled_witness:
  "disabled disabled_props \<and> \<not> disabled example_props \<and>
   input_clicks initial = 0 \<and>
   input_clicks (dispatch disabled_props initial ButtonClick) = 0 \<and>
   input_clicks (dispatch disabled_props initial (KeyDown Enter)) = 0 \<and>
   effects (dispatch disabled_props initial (KeyDown Enter)) = [PreventDefault] \<and>
   input_clicks (dispatch example_props initial ButtonClick) = 1 \<and>
   input_clicks (dispatch example_props initial (KeyDown Enter)) = 1 \<and>
   input_clicks (dispatch example_props initial (KeyDown Space)) = 1"
proof -
  have h1: "disabled disabled_props"
    by (simp add: disabled_props_def)
  have h2: "\<not> disabled example_props"
    by (simp add: example_props_def)
  have z: "input_clicks initial = 0" and e: "effects initial = []"
    by (simp_all add: input_clicks_def initial_def)
  from activation_follows_disabled [of disabled_props initial Enter]
    activation_follows_disabled [of example_props initial] h1 h2 z e
  show ?thesis by simp
qed

text \<open>
  C9, as the code has it: the input's stored value is cleared by the input's own click
  handler, that is before the picker opens and before the selection and its change event.
  Processing a change event leaves the value the host has stored, so a second selection of
  the same files right then would not be notified; after the next click on the input it is.
\<close>

theorem value_is_cleared_on_input_click:
  "input_value (dispatch p s InputClicked) = None \<and>
   effects (dispatch p s InputClicked) = effects s \<and>
   input_value (dispatch p s (InputChange v fs)) = Some v \<and>
   \<not> host_notifies_change (dispatch p s (InputChange v fs)) v \<and>
   host_notifies_change (dispatch p (dispatch p s (InputChange v fs)) InputClicked) v"
  by (simp add: input_onClick_def input_onChange_def handleChange_def host_notifies_change_def)

text \<open>C9, witness: click, selection of \<^verbatim>\<open>a.png\<close>, and click again.\<close>

theorem value_is_cleared_on_input_click_witness:
  "input_value (run example_props initial [InputClicked, InputChange fakepath_a_png [a_png]]) = Some fakepath_a_png \<and>
   input_value (run example_props initial [InputClicked, InputChange fakepath_a_png [a_png], InputClicked]) = None \<and>
   host_notifies_change
     (run example_props initial [InputClicked, InputChange fakepath_a_png [a_png], InputClicked]) fakepath_a_png"
  using value_is_cleared_on_input_click
    [of example_props "dispatch example_props initial InputClicked" fakepath_a_png "[a_png]"]
    value_is_cleared_on_input_click
    [of example_props "dispatch example_props (dispatch example_props initial InputClicked) (InputChange fakepath_a_png [a_png])"]
  by (simp add: run_def)

text \<open>
  C9, counterexample to "the value is cleared immediately after the change event is
  processed": after the change event the value is still the one stored for the selection.
\<close>

theorem change_leaves_value_stored:
  "input_value (dispatch example_props initial (InputChange fakepath_a_png [a_png])) =
     Some fakepath_a_png \<and>
   onAddFiles_calls (dispatch example_props initial (InputChange fakepath_a_png [a_png])) =
     [[a_png]]"
  by code_simp

end
